theory Spec2Isabelle
  imports Complex_Main
begin

section \<open>Patient scheduling system: the data model\<close>

text \<open>
  The program keeps two FIFO queues of patients (urgent and normal), a list of served
  patients and five counters. A \<open>std::queue\<close> is modelled as a list whose head is
  the front of the queue: \<open>push\<close> appends at the end, \<open>front\<close>/\<open>pop\<close> take the head.
  A \<open>std::vector\<close> that is only ever extended by \<open>push_back\<close> is a list extended at the
  end.

  Values of the C++ type \<open>int\<close> are integers. The waiting time of a patient and the
  total waiting time depend on the tick that the caller passes, which can be any
  \<open>int\<close>: they are computed as the compiled program computes them, in 32-bit two's
  complement arithmetic that wraps around (\<open>int32\<close>). The counters that count patients
  (\<open>total_patients\<close>, \<open>total_urgent\<close>, \<open>total_normal\<close>, \<open>total_served\<close> and the local
  \<open>served\<close>) go up by one per patient, so they stay within the range of \<open>int\<close> until
  2147483647 patients have been counted; they are kept exact.
\<close>

text \<open>
  The 32-bit \<open>int\<close> that an arithmetic result wraps to, and the range of the type.
\<close>

definition int32 :: "int \<Rightarrow> int" where
  "int32 x = (x + 2147483648) mod 4294967296 - 2147483648"

definition in_int_range :: "int \<Rightarrow> bool" where
  "in_int_range x = (- 2147483648 \<le> x \<and> x \<le> 2147483647)"

record Patient =
  id_p :: string
  gender :: char
  arrival_time :: string
  type_p :: string
  arrival_minute :: int

definition getType :: "Patient \<Rightarrow> string" where
  "getType p = type_p p"

definition getArrivalMinute :: "Patient \<Rightarrow> int" where
  "getArrivalMinute p = arrival_minute p"

record Scheduler =
  urgent_queue :: "Patient list"
  normal_queue :: "Patient list"
  served_patients :: "Patient list"
  total_patients :: int
  total_urgent :: int
  total_normal :: int
  total_waiting_time :: int
  total_served :: int

text \<open>The state of a freshly constructed \<open>Scheduler\<close>: empty containers, counters at 0.\<close>

definition Scheduler_init :: Scheduler where
  "Scheduler_init =
     \<lparr>urgent_queue = [], normal_queue = [], served_patients = [],
      total_patients = 0, total_urgent = 0, total_normal = 0,
      total_waiting_time = 0, total_served = 0\<rparr>"

definition isUrgentQueueEmpty :: "Scheduler \<Rightarrow> bool" where
  "isUrgentQueueEmpty s = (urgent_queue s = [])"

definition isNormalQueueEmpty :: "Scheduler \<Rightarrow> bool" where
  "isNormalQueueEmpty s = (normal_queue s = [])"

section \<open>\<open>Scheduler::addPatient\<close>\<close>

definition addPatient :: "Scheduler \<Rightarrow> Patient \<Rightarrow> Scheduler" where
  "addPatient s patient =
     (let s1 =
        (if getType patient = ''Urgent''
         then s\<lparr>urgent_queue := urgent_queue s @ [patient],
                total_urgent := total_urgent s + 1\<rparr>
         else s\<lparr>normal_queue := normal_queue s @ [patient],
                total_normal := total_normal s + 1\<rparr>)
      in s1\<lparr>total_patients := total_patients s1 + 1\<rparr>)"

section \<open>\<open>Scheduler::servePatients\<close>\<close>

text \<open>
  The state of either \<open>while\<close> loop is the scheduler together with the local variable
  \<open>served\<close>. One iteration of the first loop is \<open>urgent_body\<close>: it takes the front
  patient off the urgent queue, computes the waiting time in 32-bit arithmetic and either
  skips the patient (\<open>continue\<close>) or appends it to \<open>served_patients\<close> and adds the
  waiting time to \<open>total_waiting_time\<close>, again in 32-bit arithmetic. The \<open>else\<close> branch of the inner test
  throws a \<open>runtime_error\<close> that the \<open>catch\<close> of the same iteration consumes by printing
  a message: it leaves the scheduler and \<open>served\<close> as they are.
\<close>

definition urgent_body :: "int \<Rightarrow> Scheduler \<times> int \<Rightarrow> Scheduler \<times> int" where
  "urgent_body minute st =
     (case st of (s, served) \<Rightarrow>
        (case urgent_queue s of
           p # rest \<Rightarrow>
             (let s1 = s\<lparr>urgent_queue := rest\<rparr>;
                  waiting_time = int32 (minute - getArrivalMinute p)
              in if waiting_time > 10 then (s1, served)
                 else (s1\<lparr>served_patients := served_patients s1 @ [p],
                          total_waiting_time := int32 (total_waiting_time s1 + waiting_time)\<rparr>,
                       served + 1))
         | [] \<Rightarrow> (s, served)))"

definition normal_body :: "int \<Rightarrow> Scheduler \<times> int \<Rightarrow> Scheduler \<times> int" where
  "normal_body minute st =
     (case st of (s, served) \<Rightarrow>
        (case normal_queue s of
           p # rest \<Rightarrow>
             (let s1 = s\<lparr>normal_queue := rest\<rparr>;
                  waiting_time = int32 (minute - getArrivalMinute p)
              in if waiting_time > 10 then (s1, served)
                 else (s1\<lparr>served_patients := served_patients s1 @ [p],
                          total_waiting_time := int32 (total_waiting_time s1 + waiting_time)\<rparr>,
                       served + 1))
         | [] \<Rightarrow> (s, served)))"

definition urgent_cond :: "int \<Rightarrow> Scheduler \<times> int \<Rightarrow> bool" where
  "urgent_cond max_to_serve st = (snd st < max_to_serve \<and> urgent_queue (fst st) \<noteq> [])"

definition normal_cond :: "int \<Rightarrow> Scheduler \<times> int \<Rightarrow> bool" where
  "normal_cond max_to_serve st = (snd st < max_to_serve \<and> normal_queue (fst st) \<noteq> [])"

function urgent_loop :: "int \<Rightarrow> int \<Rightarrow> Scheduler \<times> int \<Rightarrow> Scheduler \<times> int" where
  "urgent_loop max_to_serve minute st =
     (if urgent_cond max_to_serve st
      then urgent_loop max_to_serve minute (urgent_body minute st)
      else st)"
  by pat_completeness auto
termination
proof (relation "measure (\<lambda>(max_to_serve, minute, st). length (urgent_queue (fst st)))")
  show "wf (measure (\<lambda>(max_to_serve, minute, st). length (urgent_queue (fst st))))"
    by simp
next
  fix max_to_serve minute :: int and st :: "Scheduler \<times> int"
  assume "urgent_cond max_to_serve st"
  then have "length (urgent_queue (fst (urgent_body minute st))) < length (urgent_queue (fst st))"
    by (cases st) (auto simp: urgent_cond_def urgent_body_def Let_def split: list.splits)
  then show "((max_to_serve, minute, urgent_body minute st), (max_to_serve, minute, st))
          \<in> measure (\<lambda>(max_to_serve, minute, st). length (urgent_queue (fst st)))"
    by simp
qed

function normal_loop :: "int \<Rightarrow> int \<Rightarrow> Scheduler \<times> int \<Rightarrow> Scheduler \<times> int" where
  "normal_loop max_to_serve minute st =
     (if normal_cond max_to_serve st
      then normal_loop max_to_serve minute (normal_body minute st)
      else st)"
  by pat_completeness auto
termination
proof (relation "measure (\<lambda>(max_to_serve, minute, st). length (normal_queue (fst st)))")
  show "wf (measure (\<lambda>(max_to_serve, minute, st). length (normal_queue (fst st))))"
    by simp
next
  fix max_to_serve minute :: int and st :: "Scheduler \<times> int"
  assume "normal_cond max_to_serve st"
  then have "length (normal_queue (fst (normal_body minute st))) < length (normal_queue (fst st))"
    by (cases st) (auto simp: normal_cond_def normal_body_def Let_def split: list.splits)
  then show "((max_to_serve, minute, normal_body minute st), (max_to_serve, minute, st))
          \<in> measure (\<lambda>(max_to_serve, minute, st). length (normal_queue (fst st)))"
    by simp
qed

declare urgent_loop.simps [simp del] normal_loop.simps [simp del]

text \<open>
  The whole call: \<open>served\<close> starts at 0, the urgent loop runs, then the normal loop,
  and the number served in the call is added to \<open>total_served\<close>.
\<close>

definition servePatients :: "Scheduler \<Rightarrow> int \<Rightarrow> int \<Rightarrow> Scheduler" where
  "servePatients s max_to_serve minute =
     (case normal_loop max_to_serve minute (urgent_loop max_to_serve minute (s, 0)) of
        (s2, served) \<Rightarrow> s2\<lparr>total_served := total_served s2 + served\<rparr>)"

section \<open>\<open>Scheduler::displayStatistics\<close>\<close>

text \<open>
  The report is modelled by the values it prints. The last line is either the average
  waiting time or the text \<open>N/A (no patients served)\<close>. The quotient of the two
  \<open>double\<close> values is modelled by the quotient of real numbers: the rounding of the
  floating-point division and the formatting to two decimals are not modelled.
\<close>

datatype average_line = Average real | NotAvailable

record statistics =
  shown_total_patients :: int
  shown_urgent_patients :: int
  shown_normal_patients :: int
  shown_total_served :: int
  shown_average :: average_line

definition displayStatistics :: "Scheduler \<Rightarrow> statistics" where
  "displayStatistics s =
     \<lparr>shown_total_patients = total_patients s,
      shown_urgent_patients = total_urgent s,
      shown_normal_patients = total_normal s,
      shown_total_served = total_served s,
      shown_average =
        (if total_served s > 0
         then Average (real_of_int (total_waiting_time s) / real_of_int (total_served s))
         else NotAvailable)\<rparr>"

section \<open>The console driver in \<open>main\<close>\<close>

text \<open>
  Formatted extraction from the \<open>stringstream\<close>: \<open>ss >> str\<close> skips leading
  whitespace and reads up to the next whitespace character; \<open>ss >> ch\<close> skips leading
  whitespace and reads one character. Each returns what it read and the rest of the
  stream. Extraction only fails at the end of the input: the string is then empty and no
  character is read.
\<close>

definition isspace_c :: "char \<Rightarrow> bool" where
  "isspace_c c = (c \<in> set [CHR '' '', CHR 0x09, CHR 0x0A, CHR 0x0B, CHR 0x0C, CHR 0x0D])"

definition extract_string :: "string \<Rightarrow> string \<times> string" where
  "extract_string ss =
     (let r = dropWhile isspace_c ss
      in (takeWhile (\<lambda>c. \<not> isspace_c c) r, dropWhile (\<lambda>c. \<not> isspace_c c) r))"

definition extract_char :: "string \<Rightarrow> char option \<times> string" where
  "extract_char ss =
     (case dropWhile isspace_c ss of
        [] \<Rightarrow> (None, [])
      | c # r \<Rightarrow> (Some c, r))"

text \<open>
  \<open>toupper\<close> in the default "C" locale: a lower-case letter goes to its upper-case
  letter, every other character stays as it is.
\<close>

definition toupper_c :: "char \<Rightarrow> char" where
  "toupper_c c =
     (case map_of (zip ''abcdefghijklmnopqrstuvwxyz'' ''ABCDEFGHIJKLMNOPQRSTUVWXYZ'') c of
        Some u \<Rightarrow> u
      | None \<Rightarrow> c)"

datatype driver_error = invalid_argument string

text \<open>
  The \<open>try\<close> block that handles a manually entered record. The result is the exception
  that the \<open>catch\<close> reports, or the scheduler after \<open>addPatient\<close>. When the gender
  character cannot be read the stream is at its end, so the type is empty and the record
  is rejected by the type check before the patient is built.
\<close>

definition manual_entry :: "Scheduler \<Rightarrow> int \<Rightarrow> string \<Rightarrow> driver_error + Scheduler" where
  "manual_entry scheduler minute input =
     (case extract_string input of (ident, ss1) \<Rightarrow>
      case extract_char ss1 of (g, ss2) \<Rightarrow>
      case extract_string ss2 of (arr, ss3) \<Rightarrow>
      case extract_string ss3 of (ty0, ss4) \<Rightarrow>
        (let ty = map toupper_c ty0
         in if ty \<noteq> ''URGENT'' \<and> ty \<noteq> ''NORMAL''
            then Inl (invalid_argument ''Invalid patient type. Must be 'Urgent' or 'Normal'.'')
            else (case g of
                    None \<Rightarrow>
                      Inl (invalid_argument ''Invalid patient type. Must be 'Urgent' or 'Normal'.'')
                  | Some gc \<Rightarrow>
                      Inr (addPatient scheduler
                             \<lparr>id_p = ident, gender = gc, arrival_time = arr,
                              type_p = ty, arrival_minute = minute\<rparr>))))"

text \<open>
  One pass through the body of the main loop, on one line of input. \<open>rnd\<close> is the value
  that \<open>rand()\<close> returns when the line is \<open>next\<close>. The result says whether the loop
  goes on or is left by \<open>break\<close>.
\<close>

definition trim_trailing :: "string \<Rightarrow> string" where
  "trim_trailing input =
     rev (dropWhile (\<lambda>c. c \<in> set [CHR '' '', CHR 0x0A, CHR 0x0D, CHR 0x09]) (rev input))"

datatype loop_control = Continue | Break

definition main_iteration ::
  "nat \<Rightarrow> Scheduler \<times> int \<Rightarrow> string \<Rightarrow> (Scheduler \<times> int) \<times> loop_control" where
  "main_iteration rnd st line =
     (case st of (scheduler, minute) \<Rightarrow>
        (let input = trim_trailing line
         in if input = [] then ((scheduler, minute), Continue)
            else if input = ''next'' then
              (let max_to_serve = int (rnd mod 6) + 5;
                   scheduler1 = servePatients scheduler max_to_serve minute;
                   minute1 = minute + 1
               in if isUrgentQueueEmpty scheduler1 \<and> isNormalQueueEmpty scheduler1
                  then ((scheduler1, minute1), Break)
                  else ((scheduler1, minute1), Continue))
            else (case manual_entry scheduler minute input of
                    Inl e \<Rightarrow> ((scheduler, minute), Continue)
                  | Inr scheduler1 \<Rightarrow> ((scheduler1, minute), Continue))))"

section \<open>Sequences of calls\<close>

datatype call = AddPatient Patient | ServePatients int int

fun apply_call :: "Scheduler \<Rightarrow> call \<Rightarrow> Scheduler" where
  "apply_call s (AddPatient p) = addPatient s p"
| "apply_call s (ServePatients max_to_serve minute) = servePatients s max_to_serve minute"

definition run :: "Scheduler \<Rightarrow> call list \<Rightarrow> Scheduler" where
  "run s cs = foldl apply_call s cs"

section \<open>Vocabulary of the properties\<close>

text \<open>
  The exact difference between a tick and the arrival tick of a patient; the waiting time
  that the code computes from it in 32-bit arithmetic; and the cutoff that the code
  applies to the computed waiting time.
\<close>

definition exact_wait :: "int \<Rightarrow> Patient \<Rightarrow> int" where
  "exact_wait minute p = minute - getArrivalMinute p"

definition waiting_time_at :: "int \<Rightarrow> Patient \<Rightarrow> int" where
  "waiting_time_at minute p = int32 (minute - getArrivalMinute p)"

definition stale :: "int \<Rightarrow> Patient \<Rightarrow> bool" where
  "stale minute p = (waiting_time_at minute p > 10)"

text \<open>
  The total waiting time after the waiting times \<open>ws\<close> have been added to it one by one,
  each addition in 32-bit arithmetic.
\<close>

definition add_waits :: "int \<Rightarrow> int list \<Rightarrow> int" where
  "add_waits tot ws = foldl (\<lambda>t w. int32 (t + w)) tot ws"

text \<open>
  The entries that a call appends to \<open>served_patients\<close>: what the list holds after the
  call beyond its length before the call.
\<close>

definition newly_served :: "Scheduler \<Rightarrow> Scheduler \<Rightarrow> Patient list" where
  "newly_served s s' = drop (length (served_patients s)) (served_patients s')"

text \<open>
  The service log of a sequence of calls started in state \<open>s\<close>: every entry appended to
  \<open>served_patients\<close>, in order, paired with the tick of the call that served it.
\<close>

fun service_log :: "Scheduler \<Rightarrow> call list \<Rightarrow> (Patient \<times> int) list" where
  "service_log s [] = []"
| "service_log s (AddPatient p # cs) = service_log (addPatient s p) cs"
| "service_log s (ServePatients max_to_serve minute # cs) =
     map (\<lambda>p. (p, minute))
         (newly_served s (servePatients s max_to_serve minute))
     @ service_log (servePatients s max_to_serve minute) cs"

text \<open>
  The number of patients that a serving loop takes off a queue \<open>q\<close> when it is entered
  with the local count \<open>served\<close>.
\<close>

fun popped :: "int \<Rightarrow> int \<Rightarrow> Patient list \<Rightarrow> int \<Rightarrow> nat" where
  "popped max_to_serve minute [] served = 0"
| "popped max_to_serve minute (p # q) served =
     (if served < max_to_serve
      then Suc (popped max_to_serve minute q (if stale minute p then served else served + 1))
      else 0)"

text \<open>The patients that a loop appends when it is entered with queue \<open>q\<close>.\<close>

definition kept :: "int \<Rightarrow> int \<Rightarrow> Patient list \<Rightarrow> int \<Rightarrow> Patient list" where
  "kept max_to_serve minute q served =
     filter (\<lambda>p. \<not> stale minute p) (take (popped max_to_serve minute q served) q)"

text \<open>
  The patients that have left a queue \<open>q\<close> from its front when \<open>q'\<close> is what
  remains of it.
\<close>

definition taken :: "Patient list \<Rightarrow> Patient list \<Rightarrow> Patient list" where
  "taken q q' = take (length q - length q') q"

section \<open>Concrete patients and states\<close>

text \<open>The patients and states of the scenarios, used to run the model on concrete inputs.\<close>

definition patient_A1 :: Patient where
  "patient_A1 = \<lparr>id_p = ''A1'', gender = CHR ''F'', arrival_time = ''00:00'',
                   type_p = ''Urgent'', arrival_minute = 0\<rparr>"

definition patient_N1 :: Patient where
  "patient_N1 = \<lparr>id_p = ''N1'', gender = CHR ''M'', arrival_time = ''00:00'',
                   type_p = ''Normal'', arrival_minute = 0\<rparr>"

definition patient_N2 :: Patient where
  "patient_N2 = \<lparr>id_p = ''N2'', gender = CHR ''F'', arrival_time = ''00:00'',
                   type_p = ''Normal'', arrival_minute = 0\<rparr>"

definition scenario2 :: Scheduler where
  "scenario2 = addPatient (addPatient Scheduler_init patient_A1) patient_N1"

definition patient_N5 :: Patient where
  "patient_N5 = \<lparr>id_p = ''N5'', gender = CHR ''M'', arrival_time = ''00:05'',
                   type_p = ''Normal'', arrival_minute = 5\<rparr>"

definition patient_N6 :: Patient where
  "patient_N6 = \<lparr>id_p = ''N6'', gender = CHR ''F'', arrival_time = ''00:05'',
                   type_p = ''Normal'', arrival_minute = 5\<rparr>"

definition scenario3 :: Scheduler where
  "scenario3 = addPatient Scheduler_init patient_A1"

definition mixed_state :: Scheduler where
  "mixed_state = addPatient (addPatient (addPatient Scheduler_init patient_A1) patient_N5) patient_N6"


definition scenario1 :: Scheduler where
  "scenario1 = servePatients (addPatient Scheduler_init patient_A1) 1 5"

definition scenario4_calls :: "call list" where
  "scenario4_calls = [AddPatient patient_N1, AddPatient patient_N2, ServePatients 5 3]"

text \<open>Patients and states at the ends of the range of \<open>int\<close>.\<close>

definition patient_U1 :: Patient where
  "patient_U1 = \<lparr>id_p = ''U1'', gender = CHR ''F'', arrival_time = ''00:01'',
                   type_p = ''Urgent'', arrival_minute = 1\<rparr>"

definition patient_M1 :: Patient where
  "patient_M1 = \<lparr>id_p = ''M1'', gender = CHR ''M'', arrival_time = ''23:59'',
                   type_p = ''Urgent'', arrival_minute = - 1\<rparr>"

definition patient_X1 :: Patient where
  "patient_X1 = \<lparr>id_p = ''X1'', gender = CHR ''F'', arrival_time = ''12:00'',
                   type_p = ''Normal'', arrival_minute = 2147483647\<rparr>"

definition patient_X2 :: Patient where
  "patient_X2 = \<lparr>id_p = ''X2'', gender = CHR ''M'', arrival_time = ''12:00'',
                   type_p = ''Normal'', arrival_minute = 2147483647\<rparr>"


definition wrapped_state :: Scheduler where
  "wrapped_state = addPatient (addPatient Scheduler_init patient_U1) patient_N1"

definition early_state :: Scheduler where
  "early_state = addPatient Scheduler_init patient_M1"

definition wrap_calls :: "call list" where
  "wrap_calls = [AddPatient patient_X1, AddPatient patient_X2, ServePatients 2 0]"



section \<open>32-bit arithmetic\<close>


lemma int32_id: "in_int_range x \<Longrightarrow> int32 x = x"
  by (simp add: int32_def in_int_range_def)

lemma int32_add_left: "int32 (int32 a + b) = int32 (a + b)"
proof -
  have "int32 a + b + 2147483648 = (a + 2147483648) mod 4294967296 + b"
    by (simp add: int32_def)
  then have "(int32 a + b + 2147483648) mod 4294967296 =
      ((a + 2147483648) mod 4294967296 + b) mod 4294967296"
    by (rule arg_cong)
  also have "\<dots> = (a + 2147483648 + b) mod 4294967296"
    by (rule mod_add_left_eq)
  also have "a + 2147483648 + b = a + b + 2147483648"
    by simp
  finally have "(int32 a + b + 2147483648) mod 4294967296 = (a + b + 2147483648) mod 4294967296" .
  then show ?thesis
    unfolding int32_def [of "int32 a + b"] int32_def [of "a + b"] by (rule arg_cong)
qed

lemma add_waits_Nil [simp]: "add_waits tot [] = tot"
  by (simp add: add_waits_def)

lemma add_waits_Cons [simp]: "add_waits tot (w # ws) = add_waits (int32 (tot + w)) ws"
  by (simp add: add_waits_def)

lemma add_waits_append: "add_waits tot (ws @ vs) = add_waits (add_waits tot ws) vs"
  by (simp add: add_waits_def)

lemma add_waits_sum: "ws \<noteq> [] \<Longrightarrow> add_waits tot ws = int32 (tot + sum_list ws)"
proof (induction ws arbitrary: tot)
  case Nil
  then show ?case by simp
next
  case (Cons w ws)
  show ?case
  proof (cases "ws = []")
    case True
    then show ?thesis by simp
  next
    case False
    from Cons.IH [OF False, of "int32 (tot + w)"] show ?thesis
      by (simp add: int32_add_left add.assoc)
  qed
qed

lemma add_waits_sum_range:
  "in_int_range tot \<Longrightarrow> add_waits tot ws = int32 (tot + sum_list ws)"
  by (cases "ws = []") (simp_all add: add_waits_sum int32_id)

lemma int32_sum_int32: "int32 (a + sum_list (map int32 xs)) = int32 (a + sum_list xs)"
proof (induction xs arbitrary: a)
  case Nil
  show ?case by simp
next
  case (Cons x xs)
  have "a + sum_list (map int32 (x # xs)) = (a + int32 x) + sum_list (map int32 xs)"
    by simp
  then have "int32 (a + sum_list (map int32 (x # xs))) =
      int32 ((a + int32 x) + sum_list (map int32 xs))"
    by (rule arg_cong)
  also have "\<dots> = int32 ((a + int32 x) + sum_list xs)"
    by (rule Cons.IH)
  also have "(a + int32 x) + sum_list xs = int32 x + (a + sum_list xs)"
    by simp
  also have "int32 (int32 x + (a + sum_list xs)) = int32 (x + (a + sum_list xs))"
    by (rule int32_add_left)
  also have "x + (a + sum_list xs) = a + sum_list (x # xs)"
    by simp
  finally show ?case .
qed

section \<open>The two loops as functions of the queue\<close>

lemma urgent_body_shrinks:
  "urgent_cond max_to_serve st \<Longrightarrow>
   Suc (length (urgent_queue (fst (urgent_body minute st)))) = length (urgent_queue (fst st))"
  by (cases st) (auto simp: urgent_cond_def urgent_body_def Let_def split: list.splits)

lemma urgent_loop_char:
  "urgent_queue s = q \<Longrightarrow>
   urgent_loop max_to_serve minute (s, served) =
     (let n = popped max_to_serve minute q served;
          new = filter (\<lambda>p. \<not> stale minute p) (take n q)
      in (s\<lparr>urgent_queue := drop n q,
            served_patients := served_patients s @ new,
            total_waiting_time :=
              add_waits (total_waiting_time s) (map (waiting_time_at minute) new)\<rparr>,
          served + int (length new)))"
proof (induction q arbitrary: s served)
  case Nil
  then show ?case
    by (subst urgent_loop.simps) (simp add: urgent_cond_def add_waits_def)
next
  case (Cons p q)
  show ?case
  proof (cases "served < max_to_serve")
    case False
    with Cons.prems show ?thesis
      by (subst urgent_loop.simps) (simp add: urgent_cond_def add_waits_def)
  next
    case True
    show ?thesis
    proof (cases "stale minute p")
      case True
      have b: "urgent_body minute (s, served) = (s\<lparr>urgent_queue := q\<rparr>, served)"
        using Cons.prems True
        by (simp add: urgent_body_def stale_def waiting_time_at_def Let_def)
      have "urgent_queue (s\<lparr>urgent_queue := q\<rparr>) = q" by simp
      from Cons.IH [OF this, of served] Cons.prems True \<open>served < max_to_serve\<close> b
      show ?thesis
        by (subst urgent_loop.simps) (simp add: urgent_cond_def Let_def add_waits_def)
    next
      case False
      have b: "urgent_body minute (s, served) =
        (s\<lparr>urgent_queue := q, served_patients := served_patients s @ [p],
           total_waiting_time := int32 (total_waiting_time s + waiting_time_at minute p)\<rparr>, served + 1)"
        using Cons.prems False
        by (simp add: urgent_body_def stale_def waiting_time_at_def Let_def)
      have "urgent_queue (s\<lparr>urgent_queue := q, served_patients := served_patients s @ [p],
           total_waiting_time := int32 (total_waiting_time s + waiting_time_at minute p)\<rparr>) = q" by simp
      from Cons.IH [OF this, of "served + 1"] Cons.prems False \<open>served < max_to_serve\<close> b
      show ?thesis
        by (subst urgent_loop.simps) (simp add: urgent_cond_def Let_def add_waits_def)
    qed
  qed
qed

lemma normal_loop_char:
  "normal_queue s = q \<Longrightarrow>
   normal_loop max_to_serve minute (s, served) =
     (let n = popped max_to_serve minute q served;
          new = filter (\<lambda>p. \<not> stale minute p) (take n q)
      in (s\<lparr>normal_queue := drop n q,
            served_patients := served_patients s @ new,
            total_waiting_time :=
              add_waits (total_waiting_time s) (map (waiting_time_at minute) new)\<rparr>,
          served + int (length new)))"
proof (induction q arbitrary: s served)
  case Nil
  then show ?case
    by (subst normal_loop.simps) (simp add: normal_cond_def add_waits_def)
next
  case (Cons p q)
  show ?case
  proof (cases "served < max_to_serve")
    case False
    with Cons.prems show ?thesis
      by (subst normal_loop.simps) (simp add: normal_cond_def add_waits_def)
  next
    case True
    show ?thesis
    proof (cases "stale minute p")
      case True
      have b: "normal_body minute (s, served) = (s\<lparr>normal_queue := q\<rparr>, served)"
        using Cons.prems True
        by (simp add: normal_body_def stale_def waiting_time_at_def Let_def)
      have "normal_queue (s\<lparr>normal_queue := q\<rparr>) = q" by simp
      from Cons.IH [OF this, of served] Cons.prems True \<open>served < max_to_serve\<close> b
      show ?thesis
        by (subst normal_loop.simps) (simp add: normal_cond_def Let_def add_waits_def)
    next
      case False
      have b: "normal_body minute (s, served) =
        (s\<lparr>normal_queue := q, served_patients := served_patients s @ [p],
           total_waiting_time := int32 (total_waiting_time s + waiting_time_at minute p)\<rparr>, served + 1)"
        using Cons.prems False
        by (simp add: normal_body_def stale_def waiting_time_at_def Let_def)
      have "normal_queue (s\<lparr>normal_queue := q, served_patients := served_patients s @ [p],
           total_waiting_time := int32 (total_waiting_time s + waiting_time_at minute p)\<rparr>) = q" by simp
      from Cons.IH [OF this, of "served + 1"] Cons.prems False \<open>served < max_to_serve\<close> b
      show ?thesis
        by (subst normal_loop.simps) (simp add: normal_cond_def Let_def add_waits_def)
    qed
  qed
qed

lemma popped_le: "popped max_to_serve minute q served \<le> length q"
  by (induction q arbitrary: served) auto

lemma popped_full: "\<not> served < max_to_serve \<Longrightarrow> popped max_to_serve minute q served = 0"
  by (cases q) auto

lemma popped_exit:
  "popped max_to_serve minute q served = length q \<or>
   max_to_serve \<le> served + int (length (kept max_to_serve minute q served))"
  unfolding kept_def
proof (induction q arbitrary: served)
  case Nil
  show ?case by simp
next
  case (Cons p q)
  show ?case
  proof (cases "served < max_to_serve")
    case False
    then show ?thesis by simp
  next
    case True
    from Cons.IH [of "if stale minute p then served else served + 1"] True
    show ?thesis by (auto split: if_splits)
  qed
qed

lemma kept_bound:
  "served \<le> max_to_serve \<Longrightarrow>
   served + int (length (kept max_to_serve minute q served)) \<le> max_to_serve"
  unfolding kept_def
proof (induction q arbitrary: served)
  case Nil
  then show ?case by simp
next
  case (Cons p q)
  show ?case
  proof (cases "served < max_to_serve")
    case False
    with Cons.prems show ?thesis by simp
  next
    case True
    from Cons.IH [of "if stale minute p then served else served + 1"] True
    show ?thesis by (auto split: if_splits)
  qed
qed

lemma kept_not_stale: "p \<in> set (kept max_to_serve minute q served) \<Longrightarrow> \<not> stale minute p"
  by (simp add: kept_def)

lemma servePatients_char:
  "servePatients s max_to_serve minute =
     (let newU = kept max_to_serve minute (urgent_queue s) 0;
          newN = kept max_to_serve minute (normal_queue s) (int (length newU))
      in s\<lparr>urgent_queue := drop (popped max_to_serve minute (urgent_queue s) 0) (urgent_queue s),
            normal_queue :=
              drop (popped max_to_serve minute (normal_queue s) (int (length newU))) (normal_queue s),
            served_patients := served_patients s @ newU @ newN,
            total_waiting_time :=
              add_waits (total_waiting_time s) (map (waiting_time_at minute) (newU @ newN)),
            total_served := total_served s + (int (length newU) + int (length newN))\<rparr>)"
  by (simp add: servePatients_def urgent_loop_char [OF refl] normal_loop_char [OF refl]
        Let_def kept_def add_waits_def)

lemma taken_drop: "n \<le> length q \<Longrightarrow> taken q (drop n q) = take n q"
  by (simp add: taken_def)

lemma taken_popped [simp]:
  "taken q (drop (popped max_to_serve minute q served) q) = take (popped max_to_serve minute q served) q"
  by (rule taken_drop) (rule popped_le)

lemma urgent_loop_fst:
  "fst (urgent_loop max_to_serve minute (s, served)) =
     s\<lparr>urgent_queue := drop (popped max_to_serve minute (urgent_queue s) served) (urgent_queue s),
       served_patients := served_patients s @ kept max_to_serve minute (urgent_queue s) served,
       total_waiting_time := add_waits (total_waiting_time s)
         (map (waiting_time_at minute) (kept max_to_serve minute (urgent_queue s) served))\<rparr>"
  by (simp add: urgent_loop_char [OF refl] Let_def kept_def)

lemma urgent_loop_snd:
  "snd (urgent_loop max_to_serve minute (s, served)) =
     served + int (length (kept max_to_serve minute (urgent_queue s) served))"
  by (simp add: urgent_loop_char [OF refl] Let_def kept_def)

lemma kept_Nil [simp]: "kept max_to_serve minute [] served = []"
  by (simp add: kept_def)

lemma kept_full: "\<not> served < max_to_serve \<Longrightarrow> kept max_to_serve minute q served = []"
  by (simp add: kept_def popped_full)

lemma kept_Cons_fresh:
  "served < max_to_serve \<Longrightarrow> \<not> stale minute p \<Longrightarrow>
   kept max_to_serve minute (p # q) served = p # kept max_to_serve minute q (served + 1)"
  by (simp add: kept_def)

lemma newly_served_char:
  "newly_served s (servePatients s max_to_serve minute) =
     kept max_to_serve minute (urgent_queue s) 0
     @ kept max_to_serve minute (normal_queue s)
         (int (length (kept max_to_serve minute (urgent_queue s) 0)))"
  by (simp add: newly_served_def servePatients_char Let_def)

section \<open>Urgent patients first\<close>

lemma waiting_time_exact:
  "in_int_range (exact_wait minute p) \<Longrightarrow> waiting_time_at minute p = exact_wait minute p"
  by (simp add: waiting_time_at_def exact_wait_def int32_id)

text \<open>
  Claim C1 fails as stated when a waiting time leaves the range of \<open>int\<close>. With an urgent
  patient that arrived at tick 1, a normal patient that arrived at tick 0 and one slot at
  tick -2147483648, neither difference between the tick and the arrival tick exceeds 10,
  but the waiting time computed for the urgent patient wraps around to 2147483647: the
  urgent patient is dropped and the patient served is the normal one.
\<close>

theorem urgent_first_counterexample:
  "(1::int) \<le> 1 \<and>
   urgent_queue wrapped_state = [patient_U1] \<and> normal_queue wrapped_state = [patient_N1] \<and>
   \<not> exact_wait (- 2147483648) patient_U1 > 10 \<and>
   \<not> exact_wait (- 2147483648) patient_N1 > 10 \<and>
   newly_served wrapped_state (servePatients wrapped_state 1 (- 2147483648)) = [patient_N1] \<and>
   hd (newly_served wrapped_state (servePatients wrapped_state 1 (- 2147483648)))
     \<noteq> hd (urgent_queue wrapped_state)"
proof -
  have s: "wrapped_state = \<lparr>urgent_queue = [patient_U1], normal_queue = [patient_N1],
      served_patients = [],
      total_patients = 2, total_urgent = 1, total_normal = 1,
      total_waiting_time = 0, total_served = 0\<rparr>"
    by (simp add: wrapped_state_def addPatient_def Scheduler_init_def getType_def patient_U1_def
          patient_N1_def Let_def)
  have e: "\<not> exact_wait (- 2147483648) patient_U1 > 10 \<and>
      \<not> exact_wait (- 2147483648) patient_N1 > 10"
    by (simp add: exact_wait_def getArrivalMinute_def patient_U1_def patient_N1_def)
  have w: "waiting_time_at (- 2147483648) patient_U1 = 2147483647 \<and>
      waiting_time_at (- 2147483648) patient_N1 = - 2147483648"
    by (simp add: waiting_time_at_def int32_def getArrivalMinute_def patient_U1_def
          patient_N1_def)
  have n: "newly_served wrapped_state (servePatients wrapped_state 1 (- 2147483648)) = [patient_N1]"
    unfolding newly_served_char by (simp add: s kept_def stale_def w)
  have d: "patient_N1 \<noteq> patient_U1"
    by (simp add: patient_N1_def patient_U1_def)
  have q: "urgent_queue wrapped_state = [patient_U1] \<and> normal_queue wrapped_state = [patient_N1]"
    by (simp add: s)
  from q e n d show ?thesis by simp
qed

text \<open>
  Claim C1, amended. In a call of \<open>servePatients\<close> the urgent loop runs first and leaves
  the normal queue as it was; what it appends to \<open>served_patients\<close> are the patients it
  took off the urgent queue that are not stale. When it ends, the urgent queue is empty or
  the local count \<open>served\<close> has reached \<open>max_to_serve\<close>. Only then the normal loop
  appends the non-stale patients it takes off the normal queue, and it takes any only if
  the urgent queue is empty. In particular, with \<open>max_to_serve \<ge> 1\<close>, both queues
  non-empty and no patient stale by the waiting time that the code computes, the first
  patient appended by the call is the front of the urgent queue; this is so whenever, for
  every queued patient, the tick minus the arrival tick is within the range of \<open>int\<close>
  and at most 10.
\<close>

theorem urgent_phase_before_normal:
  "let mid = urgent_loop max_to_serve minute (s, 0);
       s' = servePatients s max_to_serve minute;
       from_urgent = taken (urgent_queue s) (urgent_queue (fst mid));
       from_normal = taken (normal_queue s) (normal_queue s')
   in normal_queue (fst mid) = normal_queue s
    \<and> urgent_queue s = from_urgent @ urgent_queue (fst mid)
    \<and> served_patients (fst mid) =
        served_patients s @ filter (\<lambda>p. \<not> stale minute p) from_urgent
    \<and> (urgent_queue (fst mid) = [] \<or> max_to_serve \<le> snd mid)
    \<and> urgent_queue s' = urgent_queue (fst mid)
    \<and> normal_queue s = from_normal @ normal_queue s'
    \<and> served_patients s' =
        served_patients (fst mid) @ filter (\<lambda>p. \<not> stale minute p) from_normal
    \<and> (from_normal \<noteq> [] \<longrightarrow> urgent_queue s' = [])
    \<and> (1 \<le> max_to_serve \<and> urgent_queue s \<noteq> [] \<and> normal_queue s \<noteq> [] \<and>
         (\<forall>p \<in> set (urgent_queue s) \<union> set (normal_queue s). \<not> stale minute p)
        \<longrightarrow> newly_served s s' \<noteq> [] \<and> hd (newly_served s s') = hd (urgent_queue s))
    \<and> (1 \<le> max_to_serve \<and> urgent_queue s \<noteq> [] \<and> normal_queue s \<noteq> [] \<and>
         (\<forall>p \<in> set (urgent_queue s) \<union> set (normal_queue s).
            in_int_range (exact_wait minute p) \<and> exact_wait minute p \<le> 10)
        \<longrightarrow> newly_served s s' \<noteq> [] \<and> hd (newly_served s s') = hd (urgent_queue s))"
proof -
  define n where "n = popped max_to_serve minute (urgent_queue s) 0"
  define newU where "newU = kept max_to_serve minute (urgent_queue s) 0"
  define j where "j = popped max_to_serve minute (normal_queue s) (int (length newU))"
  define mid where "mid = urgent_loop max_to_serve minute (s, 0)"
  define s' where "s' = servePatients s max_to_serve minute"
  have mid_nq: "normal_queue (fst mid) = normal_queue s"
    by (simp add: mid_def urgent_loop_fst)
  have mid_uq: "urgent_queue (fst mid) = drop n (urgent_queue s)"
    by (simp add: mid_def urgent_loop_fst n_def)
  have mid_served: "served_patients (fst mid) = served_patients s @ newU"
    by (simp add: mid_def urgent_loop_fst newU_def)
  have mid_count: "snd mid = int (length newU)"
    by (simp add: mid_def urgent_loop_snd newU_def)
  have s'_uq: "urgent_queue s' = drop n (urgent_queue s)"
    by (simp add: s'_def servePatients_char Let_def n_def)
  have s'_nq: "normal_queue s' = drop j (normal_queue s)"
    by (simp add: s'_def servePatients_char Let_def j_def newU_def)
  have s'_served: "served_patients s' =
      served_patients s @ newU @ kept max_to_serve minute (normal_queue s) (int (length newU))"
    by (simp add: s'_def servePatients_char Let_def newU_def)
  have tU: "taken (urgent_queue s) (urgent_queue (fst mid)) = take n (urgent_queue s)"
    by (simp add: mid_uq n_def)
  have tN: "taken (normal_queue s) (normal_queue s') = take j (normal_queue s)"
    by (simp add: s'_nq j_def)
  have newU_eq: "newU = filter (\<lambda>p. \<not> stale minute p) (take n (urgent_queue s))"
    by (simp add: newU_def kept_def n_def)
  have newN_eq: "kept max_to_serve minute (normal_queue s) (int (length newU)) =
      filter (\<lambda>p. \<not> stale minute p) (take j (normal_queue s))"
    by (simp add: kept_def j_def)
  have mid_served2: "served_patients (fst mid) =
      served_patients s @ filter (\<lambda>p. \<not> stale minute p) (take n (urgent_queue s))"
    using mid_served newU_eq by simp
  have s'_served2: "served_patients s' =
      served_patients (fst mid) @ filter (\<lambda>p. \<not> stale minute p) (take j (normal_queue s))"
    using s'_served mid_served newN_eq by simp
  have exit: "urgent_queue (fst mid) = [] \<or> max_to_serve \<le> snd mid"
    using popped_exit [of max_to_serve minute "urgent_queue s" 0]
    by (auto simp: mid_uq mid_count n_def newU_def)
  have only_after: "take j (normal_queue s) \<noteq> [] \<longrightarrow> urgent_queue s' = []"
  proof
    assume "take j (normal_queue s) \<noteq> []"
    then have "j \<noteq> 0" by auto
    then have "int (length newU) < max_to_serve"
      using popped_full [of "int (length newU)" max_to_serve minute "normal_queue s"]
      by (auto simp: j_def)
    with exit show "urgent_queue s' = []"
      by (simp add: mid_count s'_uq mid_uq)
  qed
  have first: "1 \<le> max_to_serve \<and> urgent_queue s \<noteq> [] \<and> normal_queue s \<noteq> [] \<and>
         (\<forall>p \<in> set (urgent_queue s) \<union> set (normal_queue s). \<not> stale minute p)
        \<longrightarrow> newly_served s s' \<noteq> [] \<and> hd (newly_served s s') = hd (urgent_queue s)"
  proof
    assume a: "1 \<le> max_to_serve \<and> urgent_queue s \<noteq> [] \<and> normal_queue s \<noteq> [] \<and>
         (\<forall>p \<in> set (urgent_queue s) \<union> set (normal_queue s). \<not> stale minute p)"
    then obtain p q where pq: "urgent_queue s = p # q"
      by (cases "urgent_queue s") auto
    with a have "\<not> stale minute p" by simp
    with a pq have "newU = p # kept max_to_serve minute q 1"
      by (simp add: newU_def kept_Cons_fresh)
    then show "newly_served s s' \<noteq> [] \<and> hd (newly_served s s') = hd (urgent_queue s)"
      by (simp add: newly_served_def s'_served pq)
  qed
  have first_exact: "1 \<le> max_to_serve \<and> urgent_queue s \<noteq> [] \<and> normal_queue s \<noteq> [] \<and>
         (\<forall>p \<in> set (urgent_queue s) \<union> set (normal_queue s).
            in_int_range (exact_wait minute p) \<and> exact_wait minute p \<le> 10)
        \<longrightarrow> newly_served s s' \<noteq> [] \<and> hd (newly_served s s') = hd (urgent_queue s)"
  proof
    assume a: "1 \<le> max_to_serve \<and> urgent_queue s \<noteq> [] \<and> normal_queue s \<noteq> [] \<and>
         (\<forall>p \<in> set (urgent_queue s) \<union> set (normal_queue s).
            in_int_range (exact_wait minute p) \<and> exact_wait minute p \<le> 10)"
    have "\<not> stale minute p" if "p \<in> set (urgent_queue s) \<union> set (normal_queue s)" for p
    proof -
      from a that have "in_int_range (exact_wait minute p)" and "exact_wait minute p \<le> 10"
        by blast+
      then show ?thesis
        by (simp add: stale_def waiting_time_exact)
    qed
    with a first
    show "newly_served s s' \<noteq> [] \<and> hd (newly_served s s') = hd (urgent_queue s)"
      by blast
  qed
  show ?thesis
    unfolding Let_def mid_def [symmetric] s'_def [symmetric] tU tN
    using mid_nq exit only_after first first_exact mid_served2 s'_served2
    by (simp add: mid_uq s'_uq s'_nq)
qed

text \<open>
  Scenario 2: an urgent and a normal patient admitted at tick 0, one slot at tick 0. Only
  the urgent patient is served.
\<close>

lemma scenario2_eq:
  "scenario2 = \<lparr>urgent_queue = [patient_A1], normal_queue = [patient_N1], served_patients = [],
      total_patients = 2, total_urgent = 1, total_normal = 1,
      total_waiting_time = 0, total_served = 0\<rparr>"
  by (simp add: scenario2_def addPatient_def Scheduler_init_def getType_def patient_A1_def
        patient_N1_def Let_def)

lemmas eval_serve = servePatients_char kept_def stale_def waiting_time_at_def int32_def
  getArrivalMinute_def Let_def newly_served_def

theorem urgent_phase_before_normal_witness:
  "(1::int) \<le> 1 \<and> urgent_queue scenario2 = [patient_A1] \<and> normal_queue scenario2 = [patient_N1] \<and>
   \<not> stale 0 patient_A1 \<and> \<not> stale 0 patient_N1 \<and>
   in_int_range (exact_wait 0 patient_A1) \<and> exact_wait 0 patient_A1 \<le> 10 \<and>
   in_int_range (exact_wait 0 patient_N1) \<and> exact_wait 0 patient_N1 \<le> 10 \<and>
   newly_served scenario2 (servePatients scenario2 1 0) \<noteq> [] \<and>
   hd (newly_served scenario2 (servePatients scenario2 1 0)) = patient_A1 \<and>
   served_patients (servePatients scenario2 1 0) = [patient_A1] \<and>
   normal_queue (servePatients scenario2 1 0) = [patient_N1]"
proof -
  have queues: "urgent_queue scenario2 = [patient_A1] \<and> normal_queue scenario2 = [patient_N1]"
    by (simp add: scenario2_eq)
  have fresh: "\<not> stale 0 patient_A1 \<and> \<not> stale 0 patient_N1"
    by (simp add: stale_def waiting_time_at_def int32_def getArrivalMinute_def patient_A1_def
          patient_N1_def)
  have exact: "in_int_range (exact_wait 0 patient_A1) \<and> exact_wait 0 patient_A1 \<le> 10 \<and>
      in_int_range (exact_wait 0 patient_N1) \<and> exact_wait 0 patient_N1 \<le> 10"
    by (simp add: exact_wait_def in_int_range_def getArrivalMinute_def patient_A1_def
          patient_N1_def)
  have hyp: "(1::int) \<le> 1 \<and> urgent_queue scenario2 \<noteq> [] \<and> normal_queue scenario2 \<noteq> [] \<and>
    (\<forall>p \<in> set (urgent_queue scenario2) \<union> set (normal_queue scenario2).
       in_int_range (exact_wait 0 p) \<and> exact_wait 0 p \<le> 10)"
    using queues exact by simp
  have run: "served_patients (servePatients scenario2 1 0) = [patient_A1] \<and>
    normal_queue (servePatients scenario2 1 0) = [patient_N1]"
    by (simp add: scenario2_eq eval_serve patient_A1_def patient_N1_def)
  have "newly_served scenario2 (servePatients scenario2 1 0) \<noteq> [] \<and>
    hd (newly_served scenario2 (servePatients scenario2 1 0)) = hd (urgent_queue scenario2)"
    using urgent_phase_before_normal [of 1 0 scenario2] hyp unfolding Let_def by blast
  then show ?thesis using queues fresh exact run by simp
qed

section \<open>What one call does to the state\<close>

lemma served_append:
  "served_patients (servePatients s max_to_serve minute) =
     served_patients s @ newly_served s (servePatients s max_to_serve minute)"
  by (simp add: newly_served_char) (simp add: servePatients_char Let_def)

lemma waiting_time_serve:
  "total_waiting_time (servePatients s max_to_serve minute) =
     add_waits (total_waiting_time s)
       (map (waiting_time_at minute) (newly_served s (servePatients s max_to_serve minute)))"
  by (simp add: newly_served_char) (simp add: servePatients_char Let_def)

lemma total_served_serve:
  "total_served (servePatients s max_to_serve minute) =
     total_served s + int (length (newly_served s (servePatients s max_to_serve minute)))"
  by (simp add: newly_served_char) (simp add: servePatients_char Let_def)

lemma newly_served_not_stale:
  "p \<in> set (newly_served s (servePatients s max_to_serve minute)) \<Longrightarrow> \<not> stale minute p"
  by (auto simp: newly_served_char dest: kept_not_stale)

lemma newly_served_taken:
  "newly_served s (servePatients s max_to_serve minute) =
     filter (\<lambda>p. \<not> stale minute p)
       (taken (urgent_queue s) (urgent_queue (servePatients s max_to_serve minute))
        @ taken (normal_queue s) (normal_queue (servePatients s max_to_serve minute)))"
  by (simp add: newly_served_char) (simp add: servePatients_char Let_def kept_def)

lemma queues_split:
  "urgent_queue s =
     taken (urgent_queue s) (urgent_queue (servePatients s max_to_serve minute))
     @ urgent_queue (servePatients s max_to_serve minute)"
  "normal_queue s =
     taken (normal_queue s) (normal_queue (servePatients s max_to_serve minute))
     @ normal_queue (servePatients s max_to_serve minute)"
  by (simp_all add: servePatients_char Let_def)

lemma counters_frame_serve:
  "total_patients (servePatients s max_to_serve minute) = total_patients s"
  "total_urgent (servePatients s max_to_serve minute) = total_urgent s"
  "total_normal (servePatients s max_to_serve minute) = total_normal s"
  by (simp_all add: servePatients_char Let_def)

lemma addPatient_fields:
  "served_patients (addPatient s p) = served_patients s"
  "total_waiting_time (addPatient s p) = total_waiting_time s"
  "total_served (addPatient s p) = total_served s"
  "total_patients (addPatient s p) = total_patients s + 1"
  by (simp_all add: addPatient_def Let_def)

section \<open>Sequences of calls and the service log\<close>

lemma run_Cons [simp]: "run s (c # cs) = run (apply_call s c) cs"
  by (simp add: run_def)

lemma run_Nil [simp]: "run s [] = s"
  by (simp add: run_def)

lemma run_served:
  "served_patients (run s cs) = served_patients s @ map fst (service_log s cs)"
proof (induction cs arbitrary: s)
  case Nil
  show ?case by simp
next
  case (Cons c cs)
  show ?case
  proof (cases c)
    case (AddPatient p)
    then show ?thesis by (simp add: Cons.IH addPatient_fields)
  next
    case (ServePatients max_to_serve minute)
    then show ?thesis
      by (simp add: Cons.IH comp_def served_append [symmetric])
  qed
qed

text \<open>The waiting time that the code computes for an entry of the service log.\<close>

lemma run_waiting_time:
  "total_waiting_time (run s cs) =
     add_waits (total_waiting_time s)
       (map (\<lambda>e. waiting_time_at (snd e) (fst e)) (service_log s cs))"
proof (induction cs arbitrary: s)
  case Nil
  show ?case by simp
next
  case (Cons c cs)
  show ?case
  proof (cases c)
    case (AddPatient p)
    then show ?thesis by (simp add: Cons.IH addPatient_fields)
  next
    case (ServePatients max_to_serve minute)
    then show ?thesis
      by (simp add: Cons.IH comp_def waiting_time_serve add_waits_append)
  qed
qed

lemma run_total_served:
  "total_served (run s cs) = total_served s + int (length (service_log s cs))"
proof (induction cs arbitrary: s)
  case Nil
  show ?case by simp
next
  case (Cons c cs)
  show ?case
  proof (cases c)
    case (AddPatient p)
    then show ?thesis by (simp add: Cons.IH addPatient_fields)
  next
    case (ServePatients max_to_serve minute)
    then show ?thesis
      by (simp add: Cons.IH total_served_serve)
  qed
qed

lemma service_log_fresh:
  "e \<in> set (service_log s cs) \<Longrightarrow> waiting_time_at (snd e) (fst e) \<le> 10"
proof (induction cs arbitrary: s)
  case Nil
  then show ?case by simp
next
  case (Cons c cs)
  show ?case
  proof (cases c)
    case (AddPatient p)
    with Cons show ?thesis by simp
  next
    case (ServePatients max_to_serve minute)
    with Cons show ?thesis
      by (auto simp: stale_def dest!: newly_served_not_stale)
  qed
qed

section \<open>Stale patients\<close>

text \<open>
  Claim C2, amended. In a call of \<open>servePatients\<close>, the patients taken off the two queues
  are prefixes of the queues, and what remains of each queue is the rest of it: no patient
  goes back to a queue. Of the patients taken, exactly those whose waiting time as the
  code computes it (the tick minus the arrival tick in 32-bit arithmetic, which is the
  exact difference whenever that is within the range of \<open>int\<close>) is at most 10 are
  appended to \<open>served_patients\<close>, counted in \<open>total_served\<close> and have their waiting time
  added to \<open>total_waiting_time\<close>; a patient whose computed waiting time is above 10 is in
  none of them. No entry appended by the call has a computed waiting time above 10, and
  in any sequence of calls from the initial state every entry of \<open>served_patients\<close> was
  appended with a computed waiting time of at most 10.
\<close>

theorem stale_patients_discarded:
  "let s' = servePatients s max_to_serve minute;
       from_urgent = taken (urgent_queue s) (urgent_queue s');
       from_normal = taken (normal_queue s) (normal_queue s');
       fresh = filter (\<lambda>p. \<not> waiting_time_at minute p > 10) (from_urgent @ from_normal)
   in urgent_queue s = from_urgent @ urgent_queue s'
    \<and> normal_queue s = from_normal @ normal_queue s'
    \<and> served_patients s' = served_patients s @ fresh
    \<and> total_served s' = total_served s + int (length fresh)
    \<and> total_waiting_time s' =
        add_waits (total_waiting_time s) (map (waiting_time_at minute) fresh)
    \<and> (\<forall>p \<in> set (newly_served s s'). waiting_time_at minute p \<le> 10)
    \<and> (\<forall>p \<in> set (from_urgent @ from_normal).
          in_int_range (exact_wait minute p) \<and> exact_wait minute p > 10
          \<longrightarrow> waiting_time_at minute p > 10)
    \<and> (\<forall>e \<in> set (service_log Scheduler_init cs). waiting_time_at (snd e) (fst e) \<le> 10)
    \<and> map fst (service_log Scheduler_init cs) = served_patients (run Scheduler_init cs)"
proof -
  define s' where "s' = servePatients s max_to_serve minute"
  have new: "newly_served s s' = filter (\<lambda>p. \<not> waiting_time_at minute p > 10)
       (taken (urgent_queue s) (urgent_queue s') @ taken (normal_queue s) (normal_queue s'))"
    unfolding s'_def by (simp only: newly_served_taken stale_def)
  have a: "urgent_queue s = taken (urgent_queue s) (urgent_queue s') @ urgent_queue s'"
    unfolding s'_def by (rule queues_split)
  have b: "normal_queue s = taken (normal_queue s) (normal_queue s') @ normal_queue s'"
    unfolding s'_def by (rule queues_split)
  have c: "served_patients s' = served_patients s @ newly_served s s'"
    unfolding s'_def by (rule served_append)
  have d: "total_served s' = total_served s + int (length (newly_served s s'))"
    unfolding s'_def by (rule total_served_serve)
  have e: "total_waiting_time s' =
      add_waits (total_waiting_time s) (map (waiting_time_at minute) (newly_served s s'))"
    unfolding s'_def by (rule waiting_time_serve)
  have f: "\<forall>p \<in> set (newly_served s s'). waiting_time_at minute p \<le> 10"
    unfolding new by auto
  have x: "\<forall>p \<in> set (taken (urgent_queue s) (urgent_queue s')
                    @ taken (normal_queue s) (normal_queue s')).
          in_int_range (exact_wait minute p) \<and> exact_wait minute p > 10
          \<longrightarrow> waiting_time_at minute p > 10"
    by (simp add: waiting_time_exact)
  have g: "\<forall>e \<in> set (service_log Scheduler_init cs). waiting_time_at (snd e) (fst e) \<le> 10"
    by (auto dest: service_log_fresh)
  have h: "map fst (service_log Scheduler_init cs) = served_patients (run Scheduler_init cs)"
    by (simp add: run_served Scheduler_init_def)
  show ?thesis
    unfolding Let_def s'_def [symmetric] new [symmetric]
    using a b c d e f x g h by blast
qed

section \<open>The concrete states, evaluated\<close>

lemma scenario3_eq:
  "scenario3 = \<lparr>urgent_queue = [patient_A1], normal_queue = [], served_patients = [],
      total_patients = 1, total_urgent = 1, total_normal = 0,
      total_waiting_time = 0, total_served = 0\<rparr>"
  by (simp add: scenario3_def addPatient_def Scheduler_init_def getType_def patient_A1_def Let_def)

lemma mixed_state_eq:
  "mixed_state = \<lparr>urgent_queue = [patient_A1], normal_queue = [patient_N5, patient_N6],
      served_patients = [],
      total_patients = 3, total_urgent = 1, total_normal = 2,
      total_waiting_time = 0, total_served = 0\<rparr>"
  by (simp add: mixed_state_def addPatient_def Scheduler_init_def getType_def patient_A1_def
        patient_N5_def patient_N6_def Let_def)


lemma scenario3_served:
  "servePatients scenario3 1 11 = \<lparr>urgent_queue = [], normal_queue = [], served_patients = [],
      total_patients = 1, total_urgent = 1, total_normal = 0,
      total_waiting_time = 0, total_served = 0\<rparr>"
  by (simp add: scenario3_eq eval_serve patient_A1_def)

lemma mixed_state_served:
  "servePatients mixed_state 1 11 = \<lparr>urgent_queue = [], normal_queue = [patient_N6],
      served_patients = [patient_N5],
      total_patients = 3, total_urgent = 1, total_normal = 2,
      total_waiting_time = 6, total_served = 1\<rparr>"
  by (simp add: mixed_state_eq eval_serve patient_A1_def patient_N5_def patient_N6_def)

lemma early_state_eq:
  "early_state = \<lparr>urgent_queue = [patient_M1], normal_queue = [], served_patients = [],
      total_patients = 1, total_urgent = 1, total_normal = 0,
      total_waiting_time = 0, total_served = 0\<rparr>"
  by (simp add: early_state_def addPatient_def Scheduler_init_def getType_def
        patient_M1_def Let_def)

lemma early_state_served:
  "servePatients early_state 1 2147483647 = \<lparr>urgent_queue = [], normal_queue = [],
      served_patients = [patient_M1],
      total_patients = 1, total_urgent = 1, total_normal = 0,
      total_waiting_time = - 2147483648, total_served = 1\<rparr>"
  by (simp add: early_state_eq eval_serve patient_M1_def)

text \<open>
  Claim C2 fails as stated when the waiting time leaves the range of \<open>int\<close>. An urgent
  patient that arrived at tick -1 and is taken off the queue at tick 2147483647 has waited
  2147483648 ticks, more than 10, but the waiting time that the code computes wraps around
  to -2147483648: the patient is appended to \<open>served_patients\<close>, counted in
  \<open>total_served\<close>, and the wrapped waiting time is added to \<open>total_waiting_time\<close>.
\<close>

theorem stale_patient_served_counterexample:
  "urgent_queue early_state = [patient_M1] \<and>
   exact_wait 2147483647 patient_M1 = 2147483648 \<and>
   exact_wait 2147483647 patient_M1 > 10 \<and>
   served_patients early_state = [] \<and>
   served_patients (servePatients early_state 1 2147483647) = [patient_M1] \<and>
   total_served early_state = 0 \<and>
   total_served (servePatients early_state 1 2147483647) = 1 \<and>
   total_waiting_time (servePatients early_state 1 2147483647) = - 2147483648"
proof -
  have "exact_wait 2147483647 patient_M1 = 2147483648"
    by (simp add: exact_wait_def getArrivalMinute_def patient_M1_def)
  then show ?thesis
    by (simp add: early_state_served) (simp add: early_state_eq)
qed

text \<open>
  One slot at tick 11, with a stale urgent patient and two normal patients that arrived
  at tick 5: the urgent patient is dropped, the first normal patient is served with a
  waiting time of 6.
\<close>

theorem stale_patients_discarded_witness:
  "waiting_time_at 11 patient_A1 > 10 \<and>
   urgent_queue mixed_state = [patient_A1] \<and>
   urgent_queue (servePatients mixed_state 1 11) = [] \<and>
   normal_queue (servePatients mixed_state 1 11) = [patient_N6] \<and>
   served_patients (servePatients mixed_state 1 11) = [patient_N5] \<and>
   total_served (servePatients mixed_state 1 11) = 1 \<and>
   total_waiting_time (servePatients mixed_state 1 11) = 6"
proof -
  have w: "waiting_time_at 11 patient_A1 > 10 \<and> \<not> waiting_time_at 11 patient_N5 > 10 \<and>
      waiting_time_at 11 patient_N5 = 6"
    by (simp add: waiting_time_at_def int32_def getArrivalMinute_def patient_A1_def
          patient_N5_def)
  have q: "urgent_queue (servePatients mixed_state 1 11) = [] \<and>
      normal_queue (servePatients mixed_state 1 11) = [patient_N6]"
    by (simp add: mixed_state_served)
  have t: "taken (urgent_queue mixed_state) [] = [patient_A1] \<and>
      taken (normal_queue mixed_state) [patient_N6] = [patient_N5]"
    by (simp add: mixed_state_eq taken_def)
  have "served_patients (servePatients mixed_state 1 11) = [patient_N5] \<and>
     total_served (servePatients mixed_state 1 11) = 1 \<and>
     total_waiting_time (servePatients mixed_state 1 11) = 6"
    using stale_patients_discarded [of mixed_state 1 11 "[]"] w
    unfolding Let_def by (simp add: q t int32_def) (simp add: mixed_state_eq)
  then show ?thesis using w q by (simp add: mixed_state_eq)
qed

section \<open>The capacity bound\<close>

text \<open>
  Claim C3. With \<open>max_to_serve \<ge> 0\<close>, a call of \<open>servePatients\<close> appends at most
  \<open>max_to_serve\<close> patients to \<open>served_patients\<close>, it only appends to that list, and
  \<open>total_served\<close> grows by the number of patients appended.
\<close>

theorem served_at_most_capacity:
  assumes "0 \<le> max_to_serve"
  shows "let s' = servePatients s max_to_serve minute
         in int (length (newly_served s s')) \<le> max_to_serve
          \<and> served_patients s' = served_patients s @ newly_served s s'
          \<and> total_served s' - total_served s = int (length (newly_served s s'))"
proof -
  define newU where "newU = kept max_to_serve minute (urgent_queue s) 0"
  define newN where "newN = kept max_to_serve minute (normal_queue s) (int (length newU))"
  have "0 + int (length newU) \<le> max_to_serve"
    unfolding newU_def using assms by (rule kept_bound)
  then have "int (length newU) \<le> max_to_serve" by simp
  then have "int (length newU) + int (length newN) \<le> max_to_serve"
    unfolding newN_def by (rule kept_bound)
  moreover have "newly_served s (servePatients s max_to_serve minute) = newU @ newN"
    by (simp add: newly_served_char newU_def newN_def)
  ultimately show ?thesis
    using served_append [of s max_to_serve minute] total_served_serve [of s max_to_serve minute]
    by (simp add: Let_def)
qed

text \<open>
  In the same run two patients leave the queues although there is one slot: the dropped
  patient does not use it, and one patient is served.
\<close>

theorem served_at_most_capacity_witness:
  "(0::int) \<le> 1 \<and>
   length (taken (urgent_queue mixed_state) (urgent_queue (servePatients mixed_state 1 11)))
   + length (taken (normal_queue mixed_state) (normal_queue (servePatients mixed_state 1 11))) = 2 \<and>
   newly_served mixed_state (servePatients mixed_state 1 11) = [patient_N5] \<and>
   int (length (newly_served mixed_state (servePatients mixed_state 1 11))) \<le> 1 \<and>
   total_served (servePatients mixed_state 1 11) - total_served mixed_state = 1"
proof -
  have h: "(0::int) \<le> 1" by simp
  have n: "newly_served mixed_state (servePatients mixed_state 1 11) = [patient_N5]"
    by (simp add: mixed_state_served newly_served_def) (simp add: mixed_state_eq)
  have t: "length (taken (urgent_queue mixed_state) (urgent_queue (servePatients mixed_state 1 11)))
   + length (taken (normal_queue mixed_state) (normal_queue (servePatients mixed_state 1 11))) = 2"
    by (simp add: mixed_state_served taken_def) (simp add: mixed_state_eq)
  from served_at_most_capacity [OF h, of mixed_state 11] n t show ?thesis
    by (simp add: Let_def)
qed

section \<open>Termination and the number of iterations\<close>

lemma normal_body_shrinks:
  "normal_cond max_to_serve st \<Longrightarrow>
   Suc (length (normal_queue (fst (normal_body minute st)))) = length (normal_queue (fst st))"
  by (cases st) (auto simp: normal_cond_def normal_body_def Let_def split: list.splits)

lemma urgent_body_pops:
  "urgent_cond max_to_serve st \<Longrightarrow>
   urgent_queue (fst (urgent_body minute st)) = tl (urgent_queue (fst st)) \<and>
   normal_queue (fst (urgent_body minute st)) = normal_queue (fst st)"
  by (cases st) (auto simp: urgent_cond_def urgent_body_def Let_def split: list.splits)

lemma normal_body_pops:
  "normal_cond max_to_serve st \<Longrightarrow>
   normal_queue (fst (normal_body minute st)) = tl (normal_queue (fst st)) \<and>
   urgent_queue (fst (normal_body minute st)) = urgent_queue (fst st)"
  by (cases st) (auto simp: normal_cond_def normal_body_def Let_def split: list.splits)

lemma urgent_loop_iterations:
  "\<exists>n \<le> length (urgent_queue (fst st)).
     (\<forall>k<n. urgent_cond max_to_serve ((urgent_body minute ^^ k) st)) \<and>
     \<not> urgent_cond max_to_serve ((urgent_body minute ^^ n) st) \<and>
     urgent_loop max_to_serve minute st = (urgent_body minute ^^ n) st"
proof (induction max_to_serve minute st rule: urgent_loop.induct)
  case (1 max_to_serve minute st)
  show ?case
  proof (cases "urgent_cond max_to_serve st")
    case False
    then have "urgent_loop max_to_serve minute st = st"
      by (subst urgent_loop.simps) simp
    with False show ?thesis
      by (intro exI [of _ 0]) simp
  next
    case True
    from "1.IH" [OF True] obtain n where
      n: "n \<le> length (urgent_queue (fst (urgent_body minute st)))" and
      before: "\<forall>k<n. urgent_cond max_to_serve ((urgent_body minute ^^ k) (urgent_body minute st))" and
      after: "\<not> urgent_cond max_to_serve ((urgent_body minute ^^ n) (urgent_body minute st))" and
      res: "urgent_loop max_to_serve minute (urgent_body minute st) =
              (urgent_body minute ^^ n) (urgent_body minute st)"
      by blast
    have le: "Suc n \<le> length (urgent_queue (fst st))"
      using n urgent_body_shrinks [OF True, of minute] by simp
    have b: "\<forall>k<Suc n. urgent_cond max_to_serve ((urgent_body minute ^^ k) st)"
    proof (intro allI impI)
      fix k assume "k < Suc n"
      show "urgent_cond max_to_serve ((urgent_body minute ^^ k) st)"
      proof (cases k)
        case 0
        with True show ?thesis by simp
      next
        case (Suc j)
        with \<open>k < Suc n\<close> before show ?thesis by (simp add: funpow_swap1)
      qed
    qed
    have a: "\<not> urgent_cond max_to_serve ((urgent_body minute ^^ Suc n) st)"
      using after by (simp add: funpow_swap1)
    have "urgent_loop max_to_serve minute st = (urgent_body minute ^^ Suc n) st"
      using True res by (subst urgent_loop.simps) (simp add: funpow_swap1)
    with le b a show ?thesis by blast
  qed
qed

lemma normal_loop_iterations:
  "\<exists>n \<le> length (normal_queue (fst st)).
     (\<forall>k<n. normal_cond max_to_serve ((normal_body minute ^^ k) st)) \<and>
     \<not> normal_cond max_to_serve ((normal_body minute ^^ n) st) \<and>
     normal_loop max_to_serve minute st = (normal_body minute ^^ n) st"
proof (induction max_to_serve minute st rule: normal_loop.induct)
  case (1 max_to_serve minute st)
  show ?case
  proof (cases "normal_cond max_to_serve st")
    case False
    then have "normal_loop max_to_serve minute st = st"
      by (subst normal_loop.simps) simp
    with False show ?thesis
      by (intro exI [of _ 0]) simp
  next
    case True
    from "1.IH" [OF True] obtain n where
      n: "n \<le> length (normal_queue (fst (normal_body minute st)))" and
      before: "\<forall>k<n. normal_cond max_to_serve ((normal_body minute ^^ k) (normal_body minute st))" and
      after: "\<not> normal_cond max_to_serve ((normal_body minute ^^ n) (normal_body minute st))" and
      res: "normal_loop max_to_serve minute (normal_body minute st) =
              (normal_body minute ^^ n) (normal_body minute st)"
      by blast
    have le: "Suc n \<le> length (normal_queue (fst st))"
      using n normal_body_shrinks [OF True, of minute] by simp
    have b: "\<forall>k<Suc n. normal_cond max_to_serve ((normal_body minute ^^ k) st)"
    proof (intro allI impI)
      fix k assume "k < Suc n"
      show "normal_cond max_to_serve ((normal_body minute ^^ k) st)"
      proof (cases k)
        case 0
        with True show ?thesis by simp
      next
        case (Suc j)
        with \<open>k < Suc n\<close> before show ?thesis by (simp add: funpow_swap1)
      qed
    qed
    have a: "\<not> normal_cond max_to_serve ((normal_body minute ^^ Suc n) st)"
      using after by (simp add: funpow_swap1)
    have "normal_loop max_to_serve minute st = (normal_body minute ^^ Suc n) st"
      using True res by (subst normal_loop.simps) (simp add: funpow_swap1)
    with le b a show ?thesis by blast
  qed
qed

text \<open>
  Claim C10. \<open>servePatients\<close> terminates. Both loops are total functions: either
  loop is the \<open>n\<close>-fold iteration of its body for a number \<open>n\<close> that is at most the length
  of its queue at entry, with the loop condition true before each of the \<open>n\<close> iterations
  and false after the last. Every iteration entered under the loop condition takes exactly
  the front patient off the loop's own queue and leaves the other queue alone, so the
  call makes at most as many iterations as the two queues hold patients at entry.
\<close>

theorem servePatients_terminates:
  "(\<exists>n m. n \<le> length (urgent_queue s) \<and> m \<le> length (normal_queue s)
      \<and> n + m \<le> length (urgent_queue s) + length (normal_queue s)
      \<and> (\<forall>k<n. urgent_cond max_to_serve ((urgent_body minute ^^ k) (s, 0)))
      \<and> \<not> urgent_cond max_to_serve ((urgent_body minute ^^ n) (s, 0))
      \<and> urgent_loop max_to_serve minute (s, 0) = (urgent_body minute ^^ n) (s, 0)
      \<and> (\<forall>k<m. normal_cond max_to_serve
                  ((normal_body minute ^^ k) (urgent_loop max_to_serve minute (s, 0))))
      \<and> \<not> normal_cond max_to_serve
            ((normal_body minute ^^ m) (urgent_loop max_to_serve minute (s, 0)))
      \<and> servePatients s max_to_serve minute =
          (case (normal_body minute ^^ m) ((urgent_body minute ^^ n) (s, 0)) of
             (s2, served) \<Rightarrow> s2\<lparr>total_served := total_served s2 + served\<rparr>))
   \<and> (urgent_cond max_to_serve st \<longrightarrow>
        urgent_queue (fst st) \<noteq> [] \<and>
        urgent_queue (fst (urgent_body minute st)) = tl (urgent_queue (fst st)) \<and>
        normal_queue (fst (urgent_body minute st)) = normal_queue (fst st))
   \<and> (normal_cond max_to_serve st \<longrightarrow>
        normal_queue (fst st) \<noteq> [] \<and>
        normal_queue (fst (normal_body minute st)) = tl (normal_queue (fst st)) \<and>
        urgent_queue (fst (normal_body minute st)) = urgent_queue (fst st))"
proof -
  define mid where "mid = urgent_loop max_to_serve minute (s, 0)"
  obtain n where
    n: "n \<le> length (urgent_queue s)" and
    nb: "\<forall>k<n. urgent_cond max_to_serve ((urgent_body minute ^^ k) (s, 0))" and
    na: "\<not> urgent_cond max_to_serve ((urgent_body minute ^^ n) (s, 0))" and
    nr: "mid = (urgent_body minute ^^ n) (s, 0)"
    using urgent_loop_iterations [of "(s, 0)" max_to_serve minute] unfolding mid_def by auto
  have "normal_queue (fst mid) = normal_queue s"
    by (simp add: mid_def urgent_loop_fst)
  then obtain m where
    m: "m \<le> length (normal_queue s)" and
    mb: "\<forall>k<m. normal_cond max_to_serve ((normal_body minute ^^ k) mid)" and
    ma: "\<not> normal_cond max_to_serve ((normal_body minute ^^ m) mid)" and
    mr: "normal_loop max_to_serve minute mid = (normal_body minute ^^ m) mid"
    using normal_loop_iterations [of mid max_to_serve minute] by auto
  have "servePatients s max_to_serve minute =
          (case (normal_body minute ^^ m) ((urgent_body minute ^^ n) (s, 0)) of
             (s2, served) \<Rightarrow> s2\<lparr>total_served := total_served s2 + served\<rparr>)"
  proof -
    have "servePatients s max_to_serve minute =
          (case normal_loop max_to_serve minute mid of
             (s2, served) \<Rightarrow> s2\<lparr>total_served := total_served s2 + served\<rparr>)"
      by (simp add: servePatients_def mid_def)
    also have "\<dots> = (case (normal_body minute ^^ m) mid of
             (s2, served) \<Rightarrow> s2\<lparr>total_served := total_served s2 + served\<rparr>)"
      by (simp only: mr)
    finally show ?thesis by (simp only: nr)
  qed
  with n m nb na mb ma nr have all: "n \<le> length (urgent_queue s) \<and> m \<le> length (normal_queue s)
      \<and> (\<forall>k<n. urgent_cond max_to_serve ((urgent_body minute ^^ k) (s, 0)))
      \<and> \<not> urgent_cond max_to_serve ((urgent_body minute ^^ n) (s, 0))
      \<and> mid = (urgent_body minute ^^ n) (s, 0)
      \<and> (\<forall>k<m. normal_cond max_to_serve ((normal_body minute ^^ k) mid))
      \<and> \<not> normal_cond max_to_serve ((normal_body minute ^^ m) mid)
      \<and> servePatients s max_to_serve minute =
          (case (normal_body minute ^^ m) ((urgent_body minute ^^ n) (s, 0)) of
             (s2, served) \<Rightarrow> s2\<lparr>total_served := total_served s2 + served\<rparr>)"
    by blast
  moreover from n m have "n + m \<le> length (urgent_queue s) + length (normal_queue s)"
    by simp
  ultimately have first: "\<exists>n m. n \<le> length (urgent_queue s) \<and> m \<le> length (normal_queue s)
      \<and> n + m \<le> length (urgent_queue s) + length (normal_queue s)
      \<and> (\<forall>k<n. urgent_cond max_to_serve ((urgent_body minute ^^ k) (s, 0)))
      \<and> \<not> urgent_cond max_to_serve ((urgent_body minute ^^ n) (s, 0))
      \<and> mid = (urgent_body minute ^^ n) (s, 0)
      \<and> (\<forall>k<m. normal_cond max_to_serve ((normal_body minute ^^ k) mid))
      \<and> \<not> normal_cond max_to_serve ((normal_body minute ^^ m) mid)
      \<and> servePatients s max_to_serve minute =
          (case (normal_body minute ^^ m) ((urgent_body minute ^^ n) (s, 0)) of
             (s2, served) \<Rightarrow> s2\<lparr>total_served := total_served s2 + served\<rparr>)"
    by blast
  have second: "urgent_cond max_to_serve st \<longrightarrow>
        urgent_queue (fst st) \<noteq> [] \<and>
        urgent_queue (fst (urgent_body minute st)) = tl (urgent_queue (fst st)) \<and>
        normal_queue (fst (urgent_body minute st)) = normal_queue (fst st)"
    using urgent_body_pops [of max_to_serve st minute] by (simp add: urgent_cond_def)
  have third: "normal_cond max_to_serve st \<longrightarrow>
        normal_queue (fst st) \<noteq> [] \<and>
        normal_queue (fst (normal_body minute st)) = tl (normal_queue (fst st)) \<and>
        urgent_queue (fst (normal_body minute st)) = urgent_queue (fst st)"
    using normal_body_pops [of max_to_serve st minute] by (simp add: normal_cond_def)
  from first second third show ?thesis
    unfolding mid_def by blast
qed

text \<open>
  In the run with one slot at tick 11 the urgent loop is entered, and its one iteration
  empties the urgent queue.
\<close>

theorem servePatients_terminates_witness:
  "urgent_cond 1 (mixed_state, 0) \<and>
   urgent_queue (fst (urgent_body 11 (mixed_state, 0))) = [] \<and>
   normal_queue (fst (urgent_body 11 (mixed_state, 0))) = [patient_N5, patient_N6] \<and>
   (\<exists>n m. n \<le> 1 \<and> m \<le> 2 \<and>
      servePatients mixed_state 1 11 =
        (case (normal_body 11 ^^ m) ((urgent_body 11 ^^ n) (mixed_state, 0)) of
           (s2, served) \<Rightarrow> s2\<lparr>total_served := total_served s2 + served\<rparr>))"
proof -
  have c: "urgent_cond 1 (mixed_state, 0)"
    by (simp add: urgent_cond_def mixed_state_eq)
  have l: "length (urgent_queue mixed_state) = 1" "length (normal_queue mixed_state) = 2"
    by (simp_all add: mixed_state_eq)
  have r: "tl (urgent_queue mixed_state) = []" "normal_queue mixed_state = [patient_N5, patient_N6]"
    by (simp_all add: mixed_state_eq)
  note t = servePatients_terminates [of mixed_state 1 11 "(mixed_state, 0)"]
  from t c have "urgent_queue (fst (urgent_body 11 (mixed_state, 0))) = tl (urgent_queue mixed_state) \<and>
      normal_queue (fst (urgent_body 11 (mixed_state, 0))) = normal_queue mixed_state"
    by simp
  then have q: "urgent_queue (fst (urgent_body 11 (mixed_state, 0))) = [] \<and>
      normal_queue (fst (urgent_body 11 (mixed_state, 0))) = [patient_N5, patient_N6]"
    by (simp only: r)
  from t have "\<exists>n m. n \<le> length (urgent_queue mixed_state) \<and>
      m \<le> length (normal_queue mixed_state) \<and>
      servePatients mixed_state 1 11 =
        (case (normal_body 11 ^^ m) ((urgent_body 11 ^^ n) (mixed_state, 0)) of
           (s2, served) \<Rightarrow> s2\<lparr>total_served := total_served s2 + served\<rparr>)"
    by blast
  then have "\<exists>n m. n \<le> 1 \<and> m \<le> 2 \<and>
      servePatients mixed_state 1 11 =
        (case (normal_body 11 ^^ m) ((urgent_body 11 ^^ n) (mixed_state, 0)) of
           (s2, served) \<Rightarrow> s2\<lparr>total_served := total_served s2 + served\<rparr>)"
    by (simp only: l)
  with c q show ?thesis by blast
qed

section \<open>The admission counters\<close>





section \<open>The frame of \<open>servePatients\<close>\<close>

text \<open>
  Claim C9. A call of \<open>servePatients\<close> leaves \<open>total_patients\<close>, \<open>total_urgent\<close> and
  \<open>total_normal\<close> as they were, whatever it discards; and when both queues are empty at
  entry, the call leaves the whole scheduler state as it was.
\<close>

theorem servePatients_frame:
  "total_patients (servePatients s max_to_serve minute) = total_patients s
   \<and> total_urgent (servePatients s max_to_serve minute) = total_urgent s
   \<and> total_normal (servePatients s max_to_serve minute) = total_normal s
   \<and> (urgent_queue s = [] \<and> normal_queue s = [] \<longrightarrow>
        servePatients s max_to_serve minute = s)"
proof -
  have "servePatients s max_to_serve minute = s"
    if "urgent_queue s = []" and "normal_queue s = []"
    using that by (cases s) (simp add: servePatients_char Let_def)
  then show ?thesis
    by (simp add: counters_frame_serve)
qed

text \<open>
  The admission counters after the run in which the urgent patient is discarded, and a
  call on the state left by scenario 3, where both queues are empty.
\<close>

theorem servePatients_frame_witness:
  "total_patients (servePatients mixed_state 1 11) = 3 \<and>
   total_urgent (servePatients mixed_state 1 11) = 1 \<and>
   total_normal (servePatients mixed_state 1 11) = 2 \<and>
   urgent_queue (servePatients scenario3 1 11) = [] \<and>
   normal_queue (servePatients scenario3 1 11) = [] \<and>
   servePatients (servePatients scenario3 1 11) 5 12 = servePatients scenario3 1 11"
proof -
  have e: "urgent_queue (servePatients scenario3 1 11) = [] \<and>
      normal_queue (servePatients scenario3 1 11) = []"
    by (simp add: scenario3_served)
  from servePatients_frame [of mixed_state 1 11]
    servePatients_frame [of "servePatients scenario3 1 11" 5 12] e
  show ?thesis by (simp add: mixed_state_eq)
qed

section \<open>The average waiting time\<close>

text \<open>
  Claim C8. When \<open>total_served\<close> is 0 the report shows the average as not available;
  the quotient \<open>total_waiting_time / total_served\<close> is shown only when
  \<open>total_served > 0\<close>.
\<close>

theorem average_guarded:
  "(total_served s = 0 \<longrightarrow> shown_average (displayStatistics s) = NotAvailable)
   \<and> (\<forall>x. shown_average (displayStatistics s) = Average x \<longrightarrow>
          0 < total_served s \<and>
          x = real_of_int (total_waiting_time s) / real_of_int (total_served s))
   \<and> (shown_average (displayStatistics s) = NotAvailable \<longrightarrow> total_served s \<le> 0)"
  by (simp add: displayStatistics_def)

lemma scenario1_eq:
  "scenario1 = \<lparr>urgent_queue = [], normal_queue = [], served_patients = [patient_A1],
      total_patients = 1, total_urgent = 1, total_normal = 0,
      total_waiting_time = 5, total_served = 1\<rparr>"
  unfolding scenario1_def scenario3_def [symmetric]
  by (simp add: scenario3_eq eval_serve patient_A1_def)

text \<open>
  Nothing served in the initial state and in scenario 3; in scenario 1 one patient is served
  after 5 ticks, and the average is 5.
\<close>

theorem average_guarded_witness:
  "total_served Scheduler_init = 0 \<and>
   shown_average (displayStatistics Scheduler_init) = NotAvailable \<and>
   total_served (servePatients scenario3 1 11) = 0 \<and>
   shown_average (displayStatistics (servePatients scenario3 1 11)) = NotAvailable \<and>
   shown_average (displayStatistics scenario1) = Average 5 \<and>
   0 < total_served scenario1"
proof -
  have z: "total_served Scheduler_init = 0" "total_served (servePatients scenario3 1 11) = 0"
    by (simp_all add: Scheduler_init_def scenario3_served)
  have a: "shown_average (displayStatistics scenario1) = Average 5"
    by (simp add: displayStatistics_def scenario1_eq)
  from average_guarded [of Scheduler_init] average_guarded [of "servePatients scenario3 1 11"]
    average_guarded [of scenario1] z a
  show ?thesis by blast
qed

lemma run_waiting_time_exact:
  "total_waiting_time (run Scheduler_init cs) =
     int32 (sum_list (map (\<lambda>e. exact_wait (snd e) (fst e)) (service_log Scheduler_init cs)))"
proof -
  define log where "log = service_log Scheduler_init cs"
  have m: "map (\<lambda>e. waiting_time_at (snd e) (fst e)) log =
      map int32 (map (\<lambda>e. exact_wait (snd e) (fst e)) log)"
    by (simp add: waiting_time_at_def exact_wait_def)
  have "in_int_range (total_waiting_time Scheduler_init)"
    by (simp add: Scheduler_init_def in_int_range_def)
  then have "total_waiting_time (run Scheduler_init cs) =
      int32 (total_waiting_time Scheduler_init
             + sum_list (map (\<lambda>e. waiting_time_at (snd e) (fst e)) log))"
    unfolding log_def run_waiting_time by (rule add_waits_sum_range)
  also have "\<dots> = int32 (0 + sum_list (map int32 (map (\<lambda>e. exact_wait (snd e) (fst e)) log)))"
    by (simp only: m) (simp add: Scheduler_init_def)
  also have "\<dots> = int32 (0 + sum_list (map (\<lambda>e. exact_wait (snd e) (fst e)) log))"
    by (rule int32_sum_int32)
  finally show ?thesis
    by (simp add: log_def)
qed

lemma wrap_calls_eq:
  "run Scheduler_init wrap_calls =
     \<lparr>urgent_queue = [], normal_queue = [], served_patients = [patient_X1, patient_X2],
      total_patients = 2, total_urgent = 0, total_normal = 2,
      total_waiting_time = 2, total_served = 2\<rparr>"
  by (simp add: wrap_calls_def addPatient_def Scheduler_init_def getType_def
        patient_X1_def patient_X2_def eval_serve)

text \<open>
  Claim C4 fails as stated when the sum of the waiting times leaves the range of \<open>int\<close>.
  Two normal patients that arrived at tick 2147483647 and are served at tick 0 have each
  waited -2147483647 ticks; the sum is -4294967294 and the mean -2147483647, but the
  second addition wraps around: \<open>total_waiting_time\<close> is 2 and the average shown is 1.
\<close>

theorem total_wait_wraps_counterexample:
  "service_log Scheduler_init wrap_calls = [(patient_X1, 0), (patient_X2, 0)] \<and>
   served_patients (run Scheduler_init wrap_calls) = [patient_X1, patient_X2] \<and>
   exact_wait 0 patient_X1 = - 2147483647 \<and>
   exact_wait 0 patient_X2 = - 2147483647 \<and>
   total_waiting_time (run Scheduler_init wrap_calls) = 2 \<and>
   total_waiting_time (run Scheduler_init wrap_calls)
     \<noteq> exact_wait 0 patient_X1 + exact_wait 0 patient_X2 \<and>
   total_served (run Scheduler_init wrap_calls) = 2 \<and>
   shown_average (displayStatistics (run Scheduler_init wrap_calls)) = Average 1 \<and>
   (exact_wait 0 patient_X1 + exact_wait 0 patient_X2) / 2 = - 2147483647"
proof -
  have l: "service_log Scheduler_init wrap_calls = [(patient_X1, 0), (patient_X2, 0)]"
    by (simp add: wrap_calls_def addPatient_def Scheduler_init_def getType_def
          patient_X1_def patient_X2_def eval_serve)
  have e: "exact_wait 0 patient_X1 = - 2147483647 \<and> exact_wait 0 patient_X2 = - 2147483647"
    by (simp add: exact_wait_def getArrivalMinute_def patient_X1_def patient_X2_def)
  have a: "shown_average (displayStatistics (run Scheduler_init wrap_calls)) = Average 1"
    by (simp add: wrap_calls_eq displayStatistics_def)
  from l e a show ?thesis
    by (simp add: wrap_calls_eq)
qed

text \<open>
  Claim C4, amended. After any sequence of \<open>addPatient\<close> and \<open>servePatients\<close> calls from
  the initial state, \<open>served_patients\<close> holds the entries of the service log in order and
  \<open>total_served\<close> is the length of \<open>served_patients\<close>; \<open>total_waiting_time\<close> is the sum,
  over the entries, of the tick of the serving call minus the arrival tick, wrapped to the
  range of 32-bit \<open>int\<close>. Whenever that sum is within the range of \<open>int\<close>,
  \<open>total_waiting_time\<close> is the sum itself, and once a patient has been served the
  average that \<open>displayStatistics\<close> shows is the arithmetic mean of those waiting times.
\<close>

theorem average_wait_is_mean:
  "let s = run Scheduler_init cs; log = service_log Scheduler_init cs;
       waits = map (\<lambda>e. exact_wait (snd e) (fst e)) log
   in served_patients s = map fst log
    \<and> total_served s = int (length (served_patients s))
    \<and> total_waiting_time s = int32 (sum_list waits)
    \<and> (in_int_range (sum_list waits) \<longrightarrow> total_waiting_time s = sum_list waits)
    \<and> (in_int_range (sum_list waits) \<and> served_patients s \<noteq> [] \<longrightarrow>
         shown_average (displayStatistics s) =
           Average (real_of_int (sum_list waits) / real (length waits)))"
proof -
  define s where "s = run Scheduler_init cs"
  define log where "log = service_log Scheduler_init cs"
  define waits where "waits = map (\<lambda>e. exact_wait (snd e) (fst e)) log"
  have a: "served_patients s = map fst log"
    by (simp add: s_def log_def run_served Scheduler_init_def)
  have b: "total_waiting_time s = int32 (sum_list waits)"
    unfolding s_def waits_def log_def by (rule run_waiting_time_exact)
  have c: "total_served s = int (length log)"
    by (simp add: s_def log_def run_total_served Scheduler_init_def)
  have c': "total_served s = int (length (served_patients s))"
    using a c by simp
  have e: "total_waiting_time s = sum_list waits" if "in_int_range (sum_list waits)"
    using that b by (simp add: int32_id)
  have d: "shown_average (displayStatistics s) =
           Average (real_of_int (sum_list waits) / real (length waits))"
    if "in_int_range (sum_list waits) \<and> served_patients s \<noteq> []"
    using that a e by (simp add: displayStatistics_def c waits_def)
  from a b c' d e show ?thesis
    unfolding Let_def s_def [symmetric] log_def [symmetric] waits_def [symmetric] by blast
qed

lemma scenario4_eq:
  "run Scheduler_init scenario4_calls =
     \<lparr>urgent_queue = [], normal_queue = [], served_patients = [patient_N1, patient_N2],
      total_patients = 2, total_urgent = 0, total_normal = 2,
      total_waiting_time = 6, total_served = 2\<rparr>"
  by (simp add: scenario4_calls_def addPatient_def Scheduler_init_def getType_def
        patient_N1_def patient_N2_def eval_serve)

text \<open>Scenario 4: two normal patients admitted at tick 0 and served at tick 3.\<close>

theorem average_wait_is_mean_witness:
  "served_patients (run Scheduler_init scenario4_calls) = [patient_N1, patient_N2] \<and>
   service_log Scheduler_init scenario4_calls = [(patient_N1, 3), (patient_N2, 3)] \<and>
   exact_wait 3 patient_N1 = 3 \<and> exact_wait 3 patient_N2 = 3 \<and>
   in_int_range (exact_wait 3 patient_N1 + exact_wait 3 patient_N2) \<and>
   total_waiting_time (run Scheduler_init scenario4_calls) = 6 \<and>
   total_served (run Scheduler_init scenario4_calls) = 2 \<and>
   shown_average (displayStatistics (run Scheduler_init scenario4_calls)) = Average 3"
proof -
  have l: "service_log Scheduler_init scenario4_calls = [(patient_N1, 3), (patient_N2, 3)]"
    by (simp add: scenario4_calls_def addPatient_def Scheduler_init_def getType_def
          patient_N1_def patient_N2_def eval_serve)
  have s: "served_patients (run Scheduler_init scenario4_calls) = [patient_N1, patient_N2]"
    by (simp add: scenario4_eq)
  have e: "exact_wait 3 patient_N1 = 3 \<and> exact_wait 3 patient_N2 = 3"
    by (simp add: exact_wait_def getArrivalMinute_def patient_N1_def patient_N2_def)
  have r: "in_int_range 6"
    by (simp add: in_int_range_def)
  from average_wait_is_mean [of scenario4_calls] e r show ?thesis
    unfolding Let_def l s by simp
qed

section \<open>Monotone counters\<close>









section \<open>Manual entries\<close>

text \<open>
  When no gender character can be read, the stream is exhausted and the type read after it
  is empty: the entry is rejected by the type check.
\<close>

lemma missing_gender_empty_type:
  assumes "extract_char ss1 = (None, ss2)"
  shows "map toupper_c (fst (extract_string (snd (extract_string ss2)))) = []"
  using assms
  by (auto simp: extract_char_def extract_string_def split: list.splits)

text \<open>No accepted manual entry reaches the urgent queue.\<close>

lemma manual_entry_never_urgent:
  assumes "manual_entry scheduler minute input = Inr scheduler1"
  shows "urgent_queue scheduler1 = urgent_queue scheduler \<and>
         total_urgent scheduler1 = total_urgent scheduler \<and>
         length (normal_queue scheduler1) = Suc (length (normal_queue scheduler)) \<and>
         total_normal scheduler1 = total_normal scheduler + 1"
  using assms
  by (auto simp: manual_entry_def addPatient_def getType_def Let_def
        split: prod.splits if_splits option.splits)

text \<open>
  Claim C6 does not hold of the code. The driver turns the category of a manual entry into
  upper case, so the patient it builds has the type \<open>URGENT\<close> or \<open>NORMAL\<close>, and
  \<open>addPatient\<close> compares the type with \<open>Urgent\<close>: in any state of the scheduler the
  entry \<open>P1 M 10:30 urgent\<close>, and likewise with \<open>Urgent\<close> or \<open>URGENT\<close>, is accepted and
  put at the end of the normal queue, with \<open>total_normal\<close> incremented; the urgent queue
  and \<open>total_urgent\<close> stay as they were.
\<close>

theorem manual_urgent_entry_queued_as_normal:
  "let entered = \<lparr>id_p = ''P1'', gender = CHR ''M'', arrival_time = ''10:30'',
                   type_p = ''URGENT'', arrival_minute = minute\<rparr>;
       s' = s\<lparr>normal_queue := normal_queue s @ [entered],
               total_normal := total_normal s + 1,
               total_patients := total_patients s + 1\<rparr>
   in main_iteration rnd (s, minute) ''P1 M 10:30 urgent'' = ((s', minute), Continue)
    \<and> main_iteration rnd (s, minute) ''P1 M 10:30 Urgent'' = ((s', minute), Continue)
    \<and> main_iteration rnd (s, minute) ''P1 M 10:30 URGENT'' = ((s', minute), Continue)
    \<and> urgent_queue s' = urgent_queue s
    \<and> total_urgent s' = total_urgent s"
  by (simp add: main_iteration_def trim_trailing_def manual_entry_def extract_string_def
        extract_char_def isspace_c_def toupper_c_def Let_def addPatient_def getType_def)

end
